theory Spec2Isabelle
  imports Main "HOL-Library.Sublist" "HOL-Library.AList"
begin

section \<open>Python strings\<close>

text \<open>
  A Python \<open>str\<close> is a sequence of Unicode code points. A code point is a natural
  number here, so that the Unicode white space and line boundaries that \<open>str.strip\<close>,
  \<open>str.splitlines\<close> and the pattern \<open>\s\<close> know are all in the model. \<open>str ''...''\<close>
  is the string of an ASCII literal of the source.
\<close>

type_synonym pychar = nat
type_synonym pystr = "pychar list"
type_synonym bytes = "nat list"

definition str :: "string \<Rightarrow> pystr" where
  "str s = map of_char s"

text \<open>\<open>str.isspace\<close> of one character (CPython's \<open>Py_UNICODE_ISSPACE\<close>); the same
  predicate decides \<open>\s\<close> in a pattern over \<open>str\<close>.\<close>

definition py_isspace :: "pychar \<Rightarrow> bool" where
  "py_isspace c \<longleftrightarrow>
     (9 \<le> c \<and> c \<le> 13) \<or> (28 \<le> c \<and> c \<le> 32) \<or> c = 133 \<or> c = 160 \<or> c = 5760 \<or>
     (8192 \<le> c \<and> c \<le> 8202) \<or> c = 8232 \<or> c = 8233 \<or> c = 8239 \<or> c = 8287 \<or> c = 12288"

text \<open>\<open>s.strip()\<close>, \<open>s.rstrip(chars)\<close> for a one-character \<open>chars\<close>,
  \<open>s.startswith(p)\<close>, \<open>s.endswith(p)\<close> and \<open>sub in s\<close>.\<close>

definition strip :: "pystr \<Rightarrow> pystr" where
  "strip s = rev (dropWhile py_isspace (rev (dropWhile py_isspace s)))"

definition rstrip_char :: "pychar \<Rightarrow> pystr \<Rightarrow> pystr" where
  "rstrip_char c s = rev (dropWhile (\<lambda>x. x = c) (rev s))"

definition startswith :: "pystr \<Rightarrow> pystr \<Rightarrow> bool" where
  "startswith s p = prefix p s"

definition endswith :: "pystr \<Rightarrow> pystr \<Rightarrow> bool" where
  "endswith s p = suffix p s"

fun py_in :: "pystr \<Rightarrow> pystr \<Rightarrow> bool" where
  "py_in sub [] = (sub = [])"
| "py_in sub (c # cs) = (prefix sub (c # cs) \<or> py_in sub cs)"

text \<open>\<open>s.splitlines()\<close>: a line ends at \<open>\n\<close>, \<open>\r\<close>, \<open>\r\n\<close>, \<open>\v\<close>, \<open>\f\<close>,
  \<open>\x1c\<close>, \<open>\x1d\<close>, \<open>\x1e\<close>, \<open>\x85\<close>, U+2028 or U+2029; the
  boundaries are dropped and a text that ends in a boundary has no empty last line.\<close>

definition is_linebreak :: "pychar \<Rightarrow> bool" where
  "is_linebreak c \<longleftrightarrow>
     (10 \<le> c \<and> c \<le> 13) \<or> (28 \<le> c \<and> c \<le> 30) \<or> c = 133 \<or> c = 8232 \<or> c = 8233"

fun splitlines_from :: "pystr \<Rightarrow> pystr \<Rightarrow> pystr list" where
  "splitlines_from cur [] = (if cur = [] then [] else [cur])"
| "splitlines_from cur [c] = (if is_linebreak c then [cur] else [cur @ [c]])"
| "splitlines_from cur (c # d # cs) =
     (if c = 13 \<and> d = 10 then cur # splitlines_from [] cs
      else if is_linebreak c then cur # splitlines_from [] (d # cs)
      else splitlines_from (cur @ [c]) (d # cs))"

definition splitlines :: "pystr \<Rightarrow> pystr list" where
  "splitlines s = splitlines_from [] s"

text \<open>\<open>s.split(sep, 1)\<close> for a one-character separator: at most one split, at the
  first occurrence.\<close>

definition split_once :: "pychar \<Rightarrow> pystr \<Rightarrow> pystr list" where
  "split_once sep s =
     (if sep \<in> set s then [takeWhile (\<lambda>x. x \<noteq> sep) s, tl (dropWhile (\<lambda>x. x \<noteq> sep) s)]
      else [s])"

text \<open>The white-space separated tokens of a text (\<open>s.split()\<close>): the notion the
  specification uses for an architecture listing. The program itself never splits the listing.\<close>

function ws_tokens :: "pystr \<Rightarrow> pystr list" where
  "ws_tokens s =
     (let t = dropWhile py_isspace s in
      if t = [] then []
      else takeWhile (\<lambda>c. \<not> py_isspace c) t # ws_tokens (dropWhile (\<lambda>c. \<not> py_isspace c) t))"
  by pat_completeness auto
termination
proof (relation "measure length")
  fix s t :: pystr
  assume t: "t = dropWhile py_isspace s" and ne: "t \<noteq> []"
  have "\<not> py_isspace (hd t)"
    using t ne hd_dropWhile by metis
  then have "length (dropWhile (\<lambda>c. \<not> py_isspace c) t) < length t"
    using ne by (cases t) (auto simp: le_imp_less_Suc length_dropWhile_le)
  moreover have "length t \<le> length s"
    using t by (simp add: length_dropWhile_le)
  ultimately show "(dropWhile (\<lambda>c. \<not> py_isspace c) t, s) \<in> measure length"
    by simp
qed simp

declare ws_tokens.simps [simp del]

section \<open>Python values\<close>

text \<open>
  The values that \<open>plistlib.load\<close> returns and that the metadata record holds. A
  \<open>dict\<close> is an association list in insertion order. Floating-point numbers
  (\<open><real>\<close> entries of a property list) are not represented.
\<close>

datatype pyval =
    VNone
  | VStr pystr
  | VInt int
  | VBool bool
  | VBytes bytes
  | VDate nat
  | VList "pyval list"
  | VDict "(pystr \<times> pyval) list"

type_synonym pydict = "(pystr \<times> pyval) list"

text \<open>Truth value of an object, as \<open>bool(x)\<close>, \<open>if x\<close> and \<open>x or y\<close> test it.\<close>

fun truthy :: "pyval \<Rightarrow> bool" where
  "truthy VNone = False"
| "truthy (VStr s) = (s \<noteq> [])"
| "truthy (VInt i) = (i \<noteq> 0)"
| "truthy (VBool b) = b"
| "truthy (VBytes b) = (b \<noteq> [])"
| "truthy (VDate d) = True"
| "truthy (VList xs) = (xs \<noteq> [])"
| "truthy (VDict d) = (d \<noteq> [])"

definition py_or :: "pyval \<Rightarrow> pyval \<Rightarrow> pyval" where
  "py_or a b = (if truthy a then a else b)"

text \<open>\<open>d.get(k)\<close>, \<open>d.get(k, default)\<close> and \<open>d[k] = v\<close>.\<close>

definition dict_get :: "pydict \<Rightarrow> pystr \<Rightarrow> pyval" where
  "dict_get d k = (case map_of d k of None \<Rightarrow> VNone | Some v \<Rightarrow> v)"

definition dict_get_default :: "pydict \<Rightarrow> pystr \<Rightarrow> pyval \<Rightarrow> pyval" where
  "dict_get_default d k dflt = (case map_of d k of None \<Rightarrow> dflt | Some v \<Rightarrow> v)"

definition dict_set :: "pydict \<Rightarrow> pystr \<Rightarrow> pyval \<Rightarrow> pydict" where
  "dict_set d k v = AList.update k v d"

definition dict_keys :: "pydict \<Rightarrow> pystr list" where
  "dict_keys d = map fst d"

section \<open>The outside world and the tool gateway\<close>

text \<open>
  What a call can raise: an exception of class \<open>Exception\<close> (a missing binary is an
  \<open>OSError\<close>, a non-zero exit a \<open>CalledProcessError\<close>), or one of the exceptions
  outside that class, which \<open>except Exception\<close> does not catch.
\<close>

datatype py_error =
    OSError
  | CalledProcessError int
  | ValueError
  | TypeError
  | AttributeError

datatype py_raise =
    Exception py_error
  | KeyboardInterrupt
  | SystemExit

text \<open>\<open>try: return body  except Exception: return dflt\<close>.\<close>

definition try_except :: "py_raise + 'a \<Rightarrow> 'a \<Rightarrow> py_raise + 'a" where
  "try_except body dflt =
     (case body of
        Inl (Exception e) \<Rightarrow> Inr dflt
      | Inl r \<Rightarrow> Inl r
      | Inr v \<Rightarrow> Inr v)"

text \<open>
  \<open>out.decode("utf-8", errors="replace")\<close>, as CPython decodes: a byte that cannot
  start a sequence, the bytes of a sequence up to a byte that cannot continue it, and a
  sequence cut off by the end of the data are each replaced by one U+FFFD (65533), and
  decoding goes on after them. Overlong forms and surrogates are not valid. The function
  is total: with \<open>errors="replace"\<close> decoding raises nothing.
\<close>

definition is_cont :: "nat \<Rightarrow> bool" where
  "is_cont b \<longleftrightarrow> 128 \<le> b \<and> b < 192"

fun utf8_decode :: "bytes \<Rightarrow> pystr" where
  "utf8_decode [] = []"
| "utf8_decode (b0 # bs) =
     (if b0 < 128 then b0 # utf8_decode bs
      else if b0 < 194 then 65533 # utf8_decode bs
      else if b0 < 224 then
        (case bs of
           [] \<Rightarrow> [65533]
         | b1 # r1 \<Rightarrow>
             if \<not> is_cont b1 then 65533 # utf8_decode bs
             else ((b0 - 192) * 64 + (b1 - 128)) # utf8_decode r1)
      else if b0 < 240 then
        (case bs of
           [] \<Rightarrow> [65533]
         | b1 # r1 \<Rightarrow>
             if \<not> is_cont b1 \<or> (if b1 < 160 then b0 = 224 else b0 = 237)
             then 65533 # utf8_decode bs
             else (case r1 of
                     [] \<Rightarrow> [65533]
                   | b2 # r2 \<Rightarrow>
                       if \<not> is_cont b2 then 65533 # utf8_decode r1
                       else ((b0 - 224) * 4096 + (b1 - 128) * 64 + (b2 - 128)) # utf8_decode r2))
      else if b0 < 245 then
        (case bs of
           [] \<Rightarrow> [65533]
         | b1 # r1 \<Rightarrow>
             if \<not> is_cont b1 \<or> (if b1 < 144 then b0 = 240 else b0 = 244)
             then 65533 # utf8_decode bs
             else (case r1 of
                     [] \<Rightarrow> [65533]
                   | b2 # r2 \<Rightarrow>
                       if \<not> is_cont b2 then 65533 # utf8_decode r1
                       else (case r2 of
                               [] \<Rightarrow> [65533]
                             | b3 # r3 \<Rightarrow>
                                 if \<not> is_cont b3 then 65533 # utf8_decode r2
                                 else ((b0 - 240) * 262144 + (b1 - 128) * 4096 +
                                       (b2 - 128) * 64 + (b3 - 128)) # utf8_decode r3)))
      else 65533 # utf8_decode bs)"

declare utf8_decode.simps(2) [simp del]

text \<open>
  The body of \<open>run_command\<close>, for every outcome of
  \<open>subprocess.check_output(cmd, stderr=subprocess.STDOUT)\<close>: the captured bytes, or
  what the call raises.
\<close>

definition run_command_body :: "py_raise + bytes \<Rightarrow> py_raise + pystr" where
  "run_command_body outcome =
     try_except (case outcome of Inl r \<Rightarrow> Inl r | Inr out \<Rightarrow> Inr (utf8_decode out)) []"

text \<open>
  What the program reads from outside: the result of \<open>check_output\<close>,
  \<open>os.path.isdir\<close>, \<open>os.path.isfile\<close>, and the result of opening a file and
  \<open>plistlib.load\<close>. An interrupt from outside ends the whole run; the world of a run
  that goes on has none, so the calls of a world raise exceptions of class
  \<open>Exception\<close> only.
\<close>

record world =
  check_output :: "pystr list \<Rightarrow> py_error + bytes"
  isdir :: "pystr \<Rightarrow> bool"
  isfile :: "pystr \<Rightarrow> bool"
  plist_load :: "pystr \<Rightarrow> py_error + pyval"

definition raised :: "py_error + 'a \<Rightarrow> py_raise + 'a" where
  "raised x = (case x of Inl e \<Rightarrow> Inl (Exception e) | Inr v \<Rightarrow> Inr v)"

definition run_command_exc :: "world \<Rightarrow> pystr list \<Rightarrow> py_raise + pystr" where
  "run_command_exc w cmd = run_command_body (raised (check_output w cmd))"

text \<open>The text a caller of \<open>run_command\<close> goes on with.\<close>

definition run_command :: "world \<Rightarrow> pystr list \<Rightarrow> pystr" where
  "run_command w cmd = (case run_command_exc w cmd of Inl e \<Rightarrow> [] | Inr t \<Rightarrow> t)"

definition parse_plist :: "world \<Rightarrow> pystr \<Rightarrow> pyval" where
  "parse_plist w plist_path =
     (case try_except (raised (plist_load w plist_path)) (VDict []) of
        Inl e \<Rightarrow> VDict []
      | Inr v \<Rightarrow> v)"

text \<open>A world in which every tool prints the bytes \<open>out\<close> and exits with 0, every
  path is a directory and a file, and every property list decodes to \<open>info\<close>.\<close>

definition ascii_world :: "bytes \<Rightarrow> pyval \<Rightarrow> world" where
  "ascii_world out info =
     \<lparr>check_output = (\<lambda>cmd. Inr out),
      isdir = (\<lambda>p. True), isfile = (\<lambda>p. True), plist_load = (\<lambda>p. Inr info)\<rparr>"

section \<open>Architecture classifier\<close>

definition get_architecture :: "world \<Rightarrow> pystr \<Rightarrow> pystr" where
  "get_architecture w binary_path =
     (let out = strip (run_command w [str ''lipo'', str ''-archs'', binary_path]) in
      if out = [] then str ''N/A''
      else if py_in (str '' '') out then str ''Universal''
      else if out = str ''arm64'' then str ''Apple Silicon''
      else if out = str ''x86_64'' then str ''Intel [64-bit]''
      else if out = str ''i386'' then str ''Intel [32-bit]''
      else out)"

section \<open>Regular expressions as \<open>re\<close> runs them\<close>

text \<open>
  The fragment of Python's pattern language that the program uses. Every repetition in
  the program's patterns is over a one-character class, so \<open>Star\<close>, \<open>Plus\<close> and
  \<open>StarLazy\<close> (\<open>c*\<close>, \<open>c+\<close>, \<open>c*?\<close>) take the class itself. \<open>Bol\<close> is \<open>^\<close>,
  \<open>BolM\<close> is \<open>^\<close> under \<open>re.MULTILINE\<close>, \<open>Eol\<close> is \<open>$\<close> without that flag.
\<close>

datatype rx =
    Lit pystr
  | Star "pychar \<Rightarrow> bool"
  | Plus "pychar \<Rightarrow> bool"
  | StarLazy "pychar \<Rightarrow> bool"
  | Opt rx
  | Group nat rx
  | Seq rx rx
  | Bol
  | BolM
  | Eol

text \<open>A position in the subject string, with the groups captured so far (the newest
  first).\<close>

record mstate =
  seen :: pystr
  todo :: pystr
  groups :: "(nat \<times> pystr) list"

definition advance :: "nat \<Rightarrow> mstate \<Rightarrow> mstate" where
  "advance n st = st\<lparr>seen := seen st @ take n (todo st), todo := drop n (todo st)\<rparr>"

definition capture :: "nat \<Rightarrow> mstate \<Rightarrow> mstate \<Rightarrow> mstate" where
  "capture n st st' = st'\<lparr>groups := (n, drop (length (seen st)) (seen st')) # groups st'\<rparr>"

text \<open>
  The backtracking matcher: all the ways the pattern matches at the position, in the
  order in which backtracking tries them (a greedy repetition tries the longest run
  first, a lazy one the shortest; a sequence goes through the alternatives of its tail
  before it takes the next alternative of its head). The first element is the match that
  \<open>re\<close> reports.
\<close>

fun rx_run :: "rx \<Rightarrow> mstate \<Rightarrow> mstate list" where
  "rx_run (Lit l) st = (if prefix l (todo st) then [advance (length l) st] else [])"
| "rx_run (Star c) st =
     map (\<lambda>n. advance n st) (rev [0 ..< Suc (length (takeWhile c (todo st)))])"
| "rx_run (Plus c) st =
     map (\<lambda>n. advance n st) (rev [1 ..< Suc (length (takeWhile c (todo st)))])"
| "rx_run (StarLazy c) st =
     map (\<lambda>n. advance n st) [0 ..< Suc (length (takeWhile c (todo st)))]"
| "rx_run (Opt r) st = rx_run r st @ [st]"
| "rx_run (Group n r) st = map (capture n st) (rx_run r st)"
| "rx_run (Seq a b) st = concat (map (rx_run b) (rx_run a st))"
| "rx_run Bol st = (if seen st = [] then [st] else [])"
| "rx_run BolM st = (if seen st = [] \<or> last (seen st) = 10 then [st] else [])"
| "rx_run Eol st = (if todo st = [] \<or> todo st = [10] then [st] else [])"

fun cat :: "rx list \<Rightarrow> rx" where
  "cat [] = Lit []"
| "cat [r] = r"
| "cat (r # rs) = Seq r (cat rs)"

definition first_match :: "mstate list \<Rightarrow> mstate option" where
  "first_match ms = (case ms of [] \<Rightarrow> None | m # _ \<Rightarrow> Some m)"

text \<open>\<open>pattern.match(s)\<close>: a match at the start of the string.\<close>

definition re_match :: "rx \<Rightarrow> pystr \<Rightarrow> mstate option" where
  "re_match r s = first_match (rx_run r \<lparr>seen = [], todo = s, groups = []\<rparr>)"

text \<open>\<open>re.search(pattern, s)\<close>: the match at the leftmost position that has one.\<close>

fun re_search_from :: "rx \<Rightarrow> pystr \<Rightarrow> pystr \<Rightarrow> mstate option" where
  "re_search_from r pre [] = first_match (rx_run r \<lparr>seen = pre, todo = [], groups = []\<rparr>)"
| "re_search_from r pre (c # cs) =
     (case rx_run r \<lparr>seen = pre, todo = c # cs, groups = []\<rparr> of
        [] \<Rightarrow> re_search_from r (pre @ [c]) cs
      | m # _ \<Rightarrow> Some m)"

definition re_search :: "rx \<Rightarrow> pystr \<Rightarrow> mstate option" where
  "re_search r s = re_search_from r [] s"

text \<open>\<open>m.group(n)\<close>: the text of the group, \<open>None\<close> when the group took no part.\<close>

definition group :: "mstate \<Rightarrow> nat \<Rightarrow> pyval" where
  "group m n = (case map_of (groups m) n of None \<Rightarrow> VNone | Some s \<Rightarrow> VStr s)"

text \<open>\<open>return m.group(1) if m else ""\<close>, for a pattern whose group 1 is not optional.\<close>

definition group1_or_empty :: "mstate option \<Rightarrow> pystr" where
  "group1_or_empty mo =
     (case mo of None \<Rightarrow> []
      | Some m \<Rightarrow> (case map_of (groups m) 1 of None \<Rightarrow> [] | Some s \<Rightarrow> s))"

text \<open>The character classes of the program's patterns: \<open>.\<close> (no \<open>\n\<close>), \<open>.\<close> under
  \<open>re.DOTALL\<close>, \<open>[0-9.]\<close>, \<open>[^,]\<close> and \<open>[0-9A-Fa-f-]\<close>.\<close>

definition dot :: "pychar \<Rightarrow> bool" where
  "dot c \<longleftrightarrow> c \<noteq> 10"

definition dot_all :: "pychar \<Rightarrow> bool" where
  "dot_all c \<longleftrightarrow> True"

definition digit_dot :: "pychar \<Rightarrow> bool" where
  "digit_dot c \<longleftrightarrow> (48 \<le> c \<and> c \<le> 57) \<or> c = 46"

definition not_comma :: "pychar \<Rightarrow> bool" where
  "not_comma c \<longleftrightarrow> c \<noteq> 44"

definition hex_dash :: "pychar \<Rightarrow> bool" where
  "hex_dash c \<longleftrightarrow> (48 \<le> c \<and> c \<le> 57) \<or> (65 \<le> c \<and> c \<le> 70) \<or> (97 \<le> c \<and> c \<le> 102) \<or> c = 45"

section \<open>UUID extractor\<close>

definition uuid_regex :: rx where
  "uuid_regex = cat [Lit (str ''uuid''), Plus py_isspace, Group 1 (Plus hex_dash)]"

definition get_uuid :: "world \<Rightarrow> pystr \<Rightarrow> pystr" where
  "get_uuid w binary_path =
     (let txt = run_command w [str ''otool'', str ''-l'', binary_path];
          m = re_search uuid_regex txt
      in group1_or_empty m)"

section \<open>Dependency structurer\<close>

text \<open>The pattern
  \<open>^(.*?)\s+\(compatibility\s+version\s+([^,]+),\s+current\s+version\s+([0-9.]+)(,\s*weak)?\)$\<close>.\<close>

definition dep_regex :: rx where
  "dep_regex =
     cat [Bol, Group 1 (StarLazy dot), Plus py_isspace, Lit (str ''(compatibility''),
          Plus py_isspace, Lit (str ''version''), Plus py_isspace, Group 2 (Plus not_comma),
          Lit (str '',''), Plus py_isspace, Lit (str ''current''), Plus py_isspace,
          Lit (str ''version''), Plus py_isspace, Group 3 (Plus digit_dot),
          Opt (Group 4 (cat [Lit (str '',''), Star py_isspace, Lit (str ''weak'')])),
          Lit (str '')''), Eol]"

text \<open>The record appended for one stripped, non-empty line.\<close>

definition dep_record :: "pystr \<Rightarrow> pyval" where
  "dep_record line =
     (case re_match dep_regex line of
        Some m \<Rightarrow>
          VDict [(str ''path'', group m 1),
                 (str ''compatibility_version'', group m 2),
                 (str ''current_version'', group m 3),
                 (str ''weak'', VBool (truthy (group m 4)))]
      | None \<Rightarrow> VDict [(str ''raw'', VStr line)])"

text \<open>The loop \<open>for line in lines[1:]\<close>, with the list \<open>deps\<close> it appends to.\<close>

fun deps_loop :: "pystr list \<Rightarrow> pyval list \<Rightarrow> pyval list" where
  "deps_loop [] deps = deps"
| "deps_loop (line # rest) deps =
     (let line' = strip line in
      if line' = [] then deps_loop rest deps
      else deps_loop rest (deps @ [dep_record line']))"

definition parse_dependencies :: "world \<Rightarrow> pystr \<Rightarrow> pyval list" where
  "parse_dependencies w binary_path =
     (let txt = run_command w [str ''otool'', str ''-L'', binary_path];
          lines = splitlines txt
      in if length lines > 1 then deps_loop (drop 1 lines) [] else [])"

section \<open>SDK version extractor\<close>

text \<open>The four patterns, in the order of the source:
  \<open>^\s*sdk\s+([0-9.]+)\<close> under \<open>re.MULTILINE\<close>,
  \<open>cmd LC_BUILD_VERSION.*?sdk\s+([0-9.]+)\<close> and
  \<open>cmd LC_VERSION_MIN_MACOSX.*?sdk\s+([0-9.]+)\<close> under \<open>re.DOTALL\<close>, and
  \<open>sdk\s+([0-9.]+)\<close>.\<close>

definition sdk_line_regex :: rx where
  "sdk_line_regex =
     cat [BolM, Star py_isspace, Lit (str ''sdk''), Plus py_isspace, Group 1 (Plus digit_dot)]"

definition build_version_regex :: rx where
  "build_version_regex =
     cat [Lit (str ''cmd LC_BUILD_VERSION''), StarLazy dot_all, Lit (str ''sdk''),
          Plus py_isspace, Group 1 (Plus digit_dot)]"

definition min_version_regex :: rx where
  "min_version_regex =
     cat [Lit (str ''cmd LC_VERSION_MIN_MACOSX''), StarLazy dot_all, Lit (str ''sdk''),
          Plus py_isspace, Group 1 (Plus digit_dot)]"

definition any_sdk_regex :: rx where
  "any_sdk_regex = cat [Lit (str ''sdk''), Plus py_isspace, Group 1 (Plus digit_dot)]"

definition get_sdk_version :: "world \<Rightarrow> pystr \<Rightarrow> pystr" where
  "get_sdk_version w binary_path =
     (let txt = run_command w [str ''otool'', str ''-l'', binary_path];
          sdk_match = re_search sdk_line_regex txt
      in if sdk_match \<noteq> None then group1_or_empty sdk_match
         else let build_version_match = re_search build_version_regex txt
         in if build_version_match \<noteq> None then group1_or_empty build_version_match
         else let min_version_match = re_search min_version_regex txt
         in if min_version_match \<noteq> None then group1_or_empty min_version_match
         else let any_sdk_match = re_search any_sdk_regex txt
         in group1_or_empty any_sdk_match)"

section \<open>Signing info parser\<close>

definition signing_fact :: "pystr \<Rightarrow> pystr \<Rightarrow> pyval" where
  "signing_fact kind val = VDict [(str ''type'', VStr kind), (str ''value'', VStr val)]"

text \<open>One pass of the loop body: the facts that the line appends to \<open>results\<close>.\<close>

definition codesign_line :: "pystr \<Rightarrow> pyval list" where
  "codesign_line line =
     (let s = strip line in
      if startswith s (str ''Authority='') then
        (let parts = split_once 61 s in
         if length parts = 2 then [signing_fact (str ''Authority'') (parts ! 1)] else [])
      else if startswith s (str ''TeamIdentifier='') then
        (let parts = split_once 61 s in
         if length parts = 2 then [signing_fact (str ''TeamIdentifier'') (parts ! 1)] else [])
      else if startswith s (str ''Signature='') then
        (let parts = split_once 61 s in
         if length parts = 2 then [signing_fact (str ''Signature'') (parts ! 1)] else [])
      else [])"

fun codesign_loop :: "pystr list \<Rightarrow> pyval list \<Rightarrow> pyval list" where
  "codesign_loop [] results = results"
| "codesign_loop (line # rest) results = codesign_loop rest (results @ codesign_line line)"

definition get_codesign_info :: "world \<Rightarrow> pystr \<Rightarrow> pyval list" where
  "get_codesign_info w app_bundle =
     (let txt = run_command w [str ''codesign'', str ''-dv'', str ''--verbose=4'', app_bundle]
      in codesign_loop (splitlines txt) [])"

section \<open>Metadata assembler\<close>

text \<open>The flags of the command line that the program reads after parsing.\<close>

record args =
  json :: bool
  pretty :: bool
  uuid :: bool
  deps :: bool
  sdk :: bool
  codesign :: bool

text \<open>\<open>os.path.join(a, *p)\<close> of \<open>posixpath\<close>: a component that starts with the
  separator replaces what was joined before it.\<close>

fun path_join :: "pystr \<Rightarrow> pystr list \<Rightarrow> pystr" where
  "path_join path [] = path"
| "path_join path (b # bs) =
     path_join (if startswith b (str ''/'') then b
                else if path = [] \<or> endswith path (str ''/'') then path @ b
                else path @ str ''/'' @ b) bs"

text \<open>
  \<open>process_app\<close> returns the record (or \<open>None\<close>) together with what it wrote to
  \<open>sys.stderr\<close>, one element for each call of \<open>write\<close>. It raises where the
  source does: \<open>info.get\<close> on a decoded property list that is not a \<open>dict\<close>, and
  \<open>os.path.join\<close> on an executable name that is not a \<open>str\<close>. \<open>colors\<close> is the
  colour scheme, which has every key the program looks up.
\<close>

definition process_app ::
  "world \<Rightarrow> args \<Rightarrow> (pystr \<Rightarrow> pystr) \<Rightarrow> pystr \<Rightarrow> py_error + (pydict option \<times> pystr list)" where
  "process_app w a colors app_path0 =
     (let app_path = rstrip_char 47 app_path0 in
      if \<not> (isdir w app_path \<and> endswith app_path (str ''.app'')) then Inr (None, [])
      else
        let plist_path = path_join app_path [str ''Contents'', str ''Info.plist''] in
        if \<not> isfile w plist_path then
          Inr (None,
               [colors (str ''error'') @ str ''Warning: '' @ plist_path @
                str '' not found. Skipping '' @ app_path @ str ''.'' @
                colors (str ''reset'') @ [10]])
        else
          (case parse_plist w plist_path of
             VDict info \<Rightarrow>
               (let version = py_or (dict_get info (str ''CFBundleShortVersionString''))
                                (dict_get_default info (str ''CFBundleVersion'') (VStr (str ''N/A'')));
                    min_macos = dict_get_default info (str ''LSMinimumSystemVersion'')
                                  (VStr (str ''N/A''));
                    exe_name = dict_get_default info (str ''CFBundleExecutable'') (VStr [])
                in case exe_name of
                     VStr exe \<Rightarrow>
                       (let bin_path = path_join app_path [str ''Contents'', str ''MacOS'', exe];
                            arch = (if isfile w bin_path then get_architecture w bin_path
                                    else str ''N/A'');
                            meta = [(str ''app'', VStr app_path),
                                    (str ''version'', version),
                                    (str ''minimum_macos'', min_macos),
                                    (str ''architecture'', VStr arch)];
                            meta = (if uuid a \<and> isfile w bin_path
                                    then dict_set meta (str ''uuid'') (VStr (get_uuid w bin_path))
                                    else meta);
                            meta = (if deps a \<and> isfile w bin_path
                                    then dict_set meta (str ''dependencies'')
                                           (VList (parse_dependencies w bin_path))
                                    else meta);
                            meta = (if sdk a \<and> isfile w bin_path
                                    then dict_set meta (str ''sdk_version'')
                                           (VStr (get_sdk_version w bin_path))
                                    else meta);
                            meta = (if codesign a
                                    then dict_set meta (str ''codesign_info'')
                                           (VList (get_codesign_info w app_path))
                                    else meta)
                        in Inr (Some meta, []))
                   | _ \<Rightarrow> Inl TypeError)
           | _ \<Rightarrow> Inl AttributeError))"

text \<open>
  The loop of \<open>main\<close> that gathers the records: \<open>results\<close> is the collection so
  far, \<open>err\<close> what has been written to \<open>sys.stderr\<close>. An exception of
  \<open>process_app\<close> is not caught and ends the run.
\<close>

fun gather ::
  "world \<Rightarrow> args \<Rightarrow> (pystr \<Rightarrow> pystr) \<Rightarrow> pystr list \<Rightarrow> pydict list \<Rightarrow> pystr list \<Rightarrow>
   py_error + (pydict list \<times> pystr list)" where
  "gather w a colors [] results err = Inr (results, err)"
| "gather w a colors (app # apps) results err =
     (case process_app w a colors app of
        Inl e \<Rightarrow> Inl e
      | Inr (m, written) \<Rightarrow>
          (case m of
             None \<Rightarrow> gather w a colors apps results (err @ written)
           | Some meta \<Rightarrow>
               if truthy (VDict meta) then gather w a colors apps (results @ [meta]) (err @ written)
               else gather w a colors apps results (err @ written)))"

section \<open>Tool gateway totality\<close>

lemma utf8_decode_ascii: "\<forall>b\<in>set bs. b < 128 \<Longrightarrow> utf8_decode bs = bs"
  by (induction bs) (simp_all add: utf8_decode.simps(2))

lemma utf8_decode_Nil_iff: "utf8_decode bs = [] \<longleftrightarrow> bs = []"
  by (cases bs) (simp_all add: utf8_decode.simps(2) split: list.splits)

lemma run_command_body_cases:
  "run_command_body (Inr out) = Inr (utf8_decode out)"
  "run_command_body (Inl (Exception e)) = Inr []"
  "run_command_body (Inl KeyboardInterrupt) = Inl KeyboardInterrupt"
  "run_command_body (Inl SystemExit) = Inl SystemExit"
  by (simp_all add: run_command_body_def try_except_def)

lemma run_command_text:
  "run_command w cmd = (case check_output w cmd of Inl e \<Rightarrow> [] | Inr out \<Rightarrow> utf8_decode out)"
  by (simp add: run_command_def run_command_exc_def raised_def run_command_body_cases
      split: sum.splits)

text \<open>
  Claim C9, as the program has it. \<open>run_command\<close> returns the decoded output when the
  process succeeds: decoding cannot fail, output that is not valid UTF-8 comes back with
  U+FFFD for the bytes that do not decode, and only empty output gives the empty string.
  It returns the empty string when \<open>check_output\<close> raises an exception of class
  \<open>Exception\<close> (missing binary, non-zero exit). It passes on to its caller exactly the
  exceptions outside that class. In a world, whose calls raise exceptions of class
  \<open>Exception\<close> only, \<open>run_command\<close> always returns a text.
\<close>

theorem run_command_total:
  "run_command_body (Inr out) = Inr (utf8_decode out) \<and>
   (utf8_decode out = [] \<longleftrightarrow> out = []) \<and>
   ((\<forall>b\<in>set out. b < 128) \<longrightarrow> utf8_decode out = out) \<and>
   run_command_body (Inl (Exception e)) = Inr [] \<and>
   ((\<exists>t. run_command_body (Inl r) = Inr t) \<longleftrightarrow> (\<exists>e'. r = Exception e')) \<and>
   ((\<exists>r'. run_command_body (Inl r) = Inl r') \<longleftrightarrow> r = KeyboardInterrupt \<or> r = SystemExit) \<and>
   run_command_exc w cmd = Inr (run_command w cmd) \<and>
   run_command w cmd =
     (case check_output w cmd of Inl e' \<Rightarrow> [] | Inr out' \<Rightarrow> utf8_decode out')"
proof -
  have a: "(\<exists>t. run_command_body (Inl r) = Inr t) \<longleftrightarrow> (\<exists>e'. r = Exception e')"
    by (cases r) (simp_all add: run_command_body_cases)
  have b: "(\<exists>r'. run_command_body (Inl r) = Inl r') \<longleftrightarrow> r = KeyboardInterrupt \<or> r = SystemExit"
    by (cases r) (simp_all add: run_command_body_cases)
  have c: "run_command_exc w cmd = Inr (run_command w cmd)"
    by (simp add: run_command_def run_command_exc_def raised_def run_command_body_cases
        split: sum.splits)
  show ?thesis
    using a b c utf8_decode_ascii[of out] utf8_decode_Nil_iff[of out] run_command_text[of w cmd]
      run_command_body_cases(1)[of out] run_command_body_cases(2)[of e]
    by blast
qed

text \<open>The theorem at a tool that prints \<open>x86_64 arm64\<close> and at a missing binary.\<close>

theorem run_command_total_witness:
  "run_command (ascii_world (str ''x86_64 arm64'' @ [10]) VNone) [str ''lipo'', str ''-archs'', str ''/A'']
     = str ''x86_64 arm64'' @ [10] \<and>
   run_command \<lparr>check_output = (\<lambda>cmd. Inl OSError), isdir = (\<lambda>p. True), isfile = (\<lambda>p. True),
                plist_load = (\<lambda>p. Inl OSError)\<rparr> [str ''lipo'', str ''-archs'', str ''/A''] = []"
  using run_command_total[of "str ''x86_64 arm64'' @ [10]" _ _
          "ascii_world (str ''x86_64 arm64'' @ [10]) VNone" "[str ''lipo'', str ''-archs'', str ''/A'']"]
        run_command_total[of _ _ _
          "\<lparr>check_output = (\<lambda>cmd. Inl OSError), isdir = (\<lambda>p. True), isfile = (\<lambda>p. True),
            plist_load = (\<lambda>p. Inl OSError)\<rparr>" "[str ''lipo'', str ''-archs'', str ''/A'']"]
  by (simp add: ascii_world_def str_def)

text \<open>
  The claim as the specification words it fails twice: output that does not decode (the
  byte 255) is not collapsed to the empty string but comes back as U+FFFD, and an
  interrupt raised while the tool runs is passed on to the caller.
\<close>

theorem run_command_undecodable_counterexample:
  "run_command \<lparr>check_output = (\<lambda>cmd. Inr [255]), isdir = (\<lambda>p. True), isfile = (\<lambda>p. True),
                plist_load = (\<lambda>p. Inl OSError)\<rparr> [str ''lipo'', str ''-archs'', str ''/A'']
     = [65533] \<and>
   run_command_body (Inl KeyboardInterrupt) = Inl KeyboardInterrupt"
  by (simp add: run_command_text run_command_body_cases utf8_decode.simps(2))

section \<open>Facts about the string functions\<close>

lemma py_in_single: "py_in [c] s \<longleftrightarrow> c \<in> set s"
  by (induction s) auto

lemma strip_empty_iff: "strip s = [] \<longleftrightarrow> dropWhile py_isspace s = []"
proof
  assume "dropWhile py_isspace s = []"
  then show "strip s = []" by (simp add: strip_def del: dropWhile_eq_Nil_conv)
next
  assume a: "strip s = []"
  show "dropWhile py_isspace s = []"
  proof (rule ccontr)
    assume ne: "dropWhile py_isspace s \<noteq> []"
    then have "\<not> py_isspace (hd (dropWhile py_isspace s))"
      by (rule hd_dropWhile)
    moreover have "hd (dropWhile py_isspace s) \<in> set (rev (dropWhile py_isspace s))"
      using ne by simp
    ultimately have "dropWhile py_isspace (rev (dropWhile py_isspace s)) \<noteq> []"
      by (metis dropWhile_eq_Nil_conv)
    then show False using a by (simp add: strip_def)
  qed
qed

lemma ws_tokens_unfold:
  "ws_tokens s =
     (if dropWhile py_isspace s = [] then []
      else takeWhile (\<lambda>c. \<not> py_isspace c) (dropWhile py_isspace s) #
           ws_tokens (dropWhile (\<lambda>c. \<not> py_isspace c) (dropWhile py_isspace s)))"
  by (subst ws_tokens.simps) (simp add: Let_def del: dropWhile_eq_Nil_conv)

lemma ws_tokens_empty_iff: "ws_tokens s = [] \<longleftrightarrow> strip s = []"
  by (subst ws_tokens_unfold) (simp add: strip_empty_iff del: dropWhile_eq_Nil_conv)

lemma strip_token:
  assumes "dropWhile py_isspace s = tok @ r" "tok \<noteq> []" "\<not> py_isspace (last tok)"
    "\<forall>c\<in>set r. py_isspace c"
  shows "strip s = tok"
proof -
  have "dropWhile py_isspace (rev r @ rev tok) = dropWhile py_isspace (rev tok)"
    using assms(4) by (simp add: dropWhile_append)
  also have "\<dots> = rev tok"
    using assms(2,3) by (cases tok rule: rev_cases) auto
  finally show ?thesis by (simp add: strip_def assms(1))
qed

lemma takeWhile_hd_nonempty: "t \<noteq> [] \<Longrightarrow> P (hd t) \<Longrightarrow> takeWhile P t \<noteq> []"
  by (cases t) auto

lemma ws_tokens_single:
  assumes "ws_tokens s = [tok]"
  shows "strip s = tok \<and> tok \<noteq> [] \<and> (\<forall>c\<in>set tok. \<not> py_isspace c)"
proof -
  define t where "t = dropWhile py_isspace s"
  define r where "r = dropWhile (\<lambda>c. \<not> py_isspace c) t"
  have unf: "[tok] = (if t = [] then [] else takeWhile (\<lambda>c. \<not> py_isspace c) t # ws_tokens r)"
    using assms ws_tokens_unfold[of s] unfolding t_def r_def by (simp only:)
  have ne: "t \<noteq> []"
  proof
    assume "t = []"
    with unf show False by simp
  qed
  then have "[tok] = takeWhile (\<lambda>c. \<not> py_isspace c) t # ws_tokens r"
    using unf by simp
  then have tok: "tok = takeWhile (\<lambda>c. \<not> py_isspace c) t" and rest: "ws_tokens r = []"
    by simp_all
  have nows: "\<forall>c\<in>set tok. \<not> py_isspace c"
    unfolding tok by (auto dest: set_takeWhileD)
  have "\<not> py_isspace (hd t)"
    using ne unfolding t_def by (rule hd_dropWhile)
  then have tokne: "tok \<noteq> []"
    unfolding tok using ne by (simp add: takeWhile_hd_nonempty)
  from rest have "strip r = []"
    by (simp only: ws_tokens_empty_iff)
  then have "dropWhile py_isspace r = []"
    by (simp only: strip_empty_iff)
  then have rws: "\<forall>c\<in>set r. py_isspace c"
    by (simp add: dropWhile_eq_Nil_conv)
  have split: "dropWhile py_isspace s = tok @ r"
    unfolding tok r_def t_def by simp
  have "\<not> py_isspace (last tok)"
    using nows tokne by simp
  from strip_token[OF split tokne this rws] show ?thesis
    using tokne nows by simp
qed

lemma space_is_space: "py_isspace 32" by (simp add: py_isspace_def)

lemma str_space: "str '' '' = [32]" by (simp add: str_def)

lemma run_command_ascii_world [simp]:
  "\<forall>b\<in>set out. b < 128 \<Longrightarrow> run_command (ascii_world out info) cmd = out"
  by (simp add: run_command_text ascii_world_def utf8_decode_ascii)


lemmas str_eval = str_def strip_def py_isspace_def


section \<open>Architecture classifier: the labels\<close>

text \<open>
  Claim C1, as the program has it. With \<open>out\<close> the stripped listing: an empty
  \<open>out\<close> gives \<open>N/A\<close>; an \<open>out\<close> that contains a space character (U+0020)
  gives \<open>Universal\<close>, whatever the tokens; any other \<open>out\<close> is mapped
  (\<open>arm64\<close>, \<open>x86_64\<close>, \<open>i386\<close>) or returned as it is. A listing with no
  token is exactly one with an empty \<open>out\<close>, and a listing of exactly one
  white-space separated token has that token as \<open>out\<close>, with no space in it, so it is
  mapped or returned verbatim.
\<close>

theorem get_architecture_label:
  "let txt = run_command w [str ''lipo'', str ''-archs'', p]; out = strip txt in
     (out = [] \<longrightarrow> get_architecture w p = str ''N/A'') \<and>
     (out \<noteq> [] \<and> 32 \<in> set out \<longrightarrow> get_architecture w p = str ''Universal'') \<and>
     (out \<noteq> [] \<and> 32 \<notin> set out \<longrightarrow>
        get_architecture w p =
          (if out = str ''arm64'' then str ''Apple Silicon''
           else if out = str ''x86_64'' then str ''Intel [64-bit]''
           else if out = str ''i386'' then str ''Intel [32-bit]''
           else out)) \<and>
     (ws_tokens txt = [] \<longleftrightarrow> out = []) \<and>
     (\<forall>tok. ws_tokens txt = [tok] \<longrightarrow>
        out = tok \<and> 32 \<notin> set out \<and>
        get_architecture w p =
          (if tok = str ''arm64'' then str ''Apple Silicon''
           else if tok = str ''x86_64'' then str ''Intel [64-bit]''
           else if tok = str ''i386'' then str ''Intel [32-bit]''
           else tok))"
proof -
  define listing where "listing = run_command w [str ''lipo'', str ''-archs'', p]"
  define out where "out = strip listing"
  have ga: "get_architecture w p =
      (if out = [] then str ''N/A''
       else if 32 \<in> set out then str ''Universal''
       else if out = str ''arm64'' then str ''Apple Silicon''
       else if out = str ''x86_64'' then str ''Intel [64-bit]''
       else if out = str ''i386'' then str ''Intel [32-bit]''
       else out)"
    by (simp add: get_architecture_def Let_def out_def listing_def str_space py_in_single)
  have single: "out = tok \<and> tok \<noteq> [] \<and> 32 \<notin> set out" if "ws_tokens listing = [tok]" for tok
  proof -
    from ws_tokens_single[OF that] have "out = tok" "tok \<noteq> []" "\<forall>c\<in>set tok. \<not> py_isspace c"
      by (simp_all add: out_def)
    then show ?thesis using space_is_space by auto
  qed
  have a: "out = [] \<longrightarrow> get_architecture w p = str ''N/A''"
    by (simp add: ga)
  have b: "out \<noteq> [] \<and> 32 \<in> set out \<longrightarrow> get_architecture w p = str ''Universal''"
    by (simp add: ga)
  have c: "out \<noteq> [] \<and> 32 \<notin> set out \<longrightarrow>
        get_architecture w p =
          (if out = str ''arm64'' then str ''Apple Silicon''
           else if out = str ''x86_64'' then str ''Intel [64-bit]''
           else if out = str ''i386'' then str ''Intel [32-bit]''
           else out)"
    by (simp add: ga)
  have d: "ws_tokens listing = [] \<longleftrightarrow> out = []"
    by (simp add: ws_tokens_empty_iff out_def)
  have e: "\<forall>tok. ws_tokens listing = [tok] \<longrightarrow>
        out = tok \<and> 32 \<notin> set out \<and>
        get_architecture w p =
          (if tok = str ''arm64'' then str ''Apple Silicon''
           else if tok = str ''x86_64'' then str ''Intel [64-bit]''
           else if tok = str ''i386'' then str ''Intel [32-bit]''
           else tok)"
  proof (intro allI impI)
    fix tok assume "ws_tokens listing = [tok]"
    from single[OF this] show "out = tok \<and> 32 \<notin> set out \<and>
        get_architecture w p =
          (if tok = str ''arm64'' then str ''Apple Silicon''
           else if tok = str ''x86_64'' then str ''Intel [64-bit]''
           else if tok = str ''i386'' then str ''Intel [32-bit]''
           else tok)"
      using ga by auto
  qed
  from a b c d e show ?thesis
    unfolding Let_def listing_def[symmetric] out_def[symmetric] by blast
qed


text \<open>The theorem at four listings: two slices, \<open>arm64\<close>, an unknown single
  token, and no output.\<close>

theorem get_architecture_label_witness:
  "get_architecture (ascii_world (str ''x86_64 arm64'' @ [10]) VNone) (str ''/A.app/Contents/MacOS/A'') = str ''Universal'' \<and>
   get_architecture (ascii_world (str ''arm64'' @ [10]) VNone) (str ''/A.app/Contents/MacOS/A'') = str ''Apple Silicon'' \<and>
   get_architecture (ascii_world (str ''ppc'' @ [10]) VNone) (str ''/A.app/Contents/MacOS/A'') = str ''ppc'' \<and>
   get_architecture (ascii_world [] VNone) (str ''/A.app/Contents/MacOS/A'') = str ''N/A''"
  using get_architecture_label[of "ascii_world (str ''x86_64 arm64'' @ [10]) VNone" "str ''/A.app/Contents/MacOS/A''"]
        get_architecture_label[of "ascii_world (str ''arm64'' @ [10]) VNone" "str ''/A.app/Contents/MacOS/A''"]
        get_architecture_label[of "ascii_world (str ''ppc'' @ [10]) VNone" "str ''/A.app/Contents/MacOS/A''"]
        get_architecture_label[of "ascii_world [] VNone" "str ''/A.app/Contents/MacOS/A''"]
  by (simp add: Let_def str_eval)


text \<open>
  The claim as the specification words it (more than one white-space separated token
  gives \<open>Universal\<close>) fails where the tokens are separated by a tab: the listing has
  two tokens and no space character, and comes back verbatim.
\<close>

theorem get_architecture_tab_counterexample:
  "ws_tokens (str ''arm64'' @ [9] @ str ''x86_64'' @ [10]) = [str ''arm64'', str ''x86_64''] \<and>
   get_architecture (ascii_world (str ''arm64'' @ [9] @ str ''x86_64'' @ [10]) VNone) (str ''/A.app/Contents/MacOS/A'')
     = str ''arm64'' @ [9] @ str ''x86_64'' \<and>
   get_architecture (ascii_world (str ''arm64'' @ [9] @ str ''x86_64'' @ [10]) VNone) (str ''/A.app/Contents/MacOS/A'')
     \<noteq> str ''Universal''"
  by (simp add: get_architecture_def Let_def str_eval ws_tokens_unfold)


section \<open>Signing info parser: the facts\<close>













section \<open>Metadata assembler: the outcomes of \<open>process_app\<close>\<close>

lemma dict_keys_set:
  "dict_keys (dict_set d k v) = (if k \<in> set (dict_keys d) then dict_keys d else dict_keys d @ [k])"
  by (simp add: dict_keys_def dict_set_def update_keys)

lemma dict_get_set:
  "dict_get (dict_set d k v) k' = (if k' = k then v else dict_get d k')"
  by (simp add: dict_get_def dict_set_def update_conv')

text \<open>The record that \<open>process_app\<close> builds from the decoded descriptor \<open>info\<close>,
  the executable name \<open>exe\<close> and the stripped bundle path \<open>app\<close>.\<close>

lemma process_app_record:
  assumes "isdir w (rstrip_char 47 app_path0)" 
    and "endswith (rstrip_char 47 app_path0) (str ''.app'')"
    and "isfile w (path_join (rstrip_char 47 app_path0) [str ''Contents'', str ''Info.plist''])"
    and "parse_plist w (path_join (rstrip_char 47 app_path0) [str ''Contents'', str ''Info.plist'']) = VDict info"
    and "dict_get_default info (str ''CFBundleExecutable'') (VStr []) = VStr exe"
  shows "process_app w a colors app_path0 =
     (let app_path = rstrip_char 47 app_path0;
          bin_path = path_join app_path [str ''Contents'', str ''MacOS'', exe];
          m0 = [(str ''app'', VStr app_path),
                (str ''version'', py_or (dict_get info (str ''CFBundleShortVersionString''))
                    (dict_get_default info (str ''CFBundleVersion'') (VStr (str ''N/A'')))),
                (str ''minimum_macos'', dict_get_default info (str ''LSMinimumSystemVersion'') (VStr (str ''N/A''))),
                (str ''architecture'', VStr (if isfile w bin_path then get_architecture w bin_path else str ''N/A''))];
          m1 = (if uuid a \<and> isfile w bin_path
                then dict_set m0 (str ''uuid'') (VStr (get_uuid w bin_path)) else m0);
          m2 = (if deps a \<and> isfile w bin_path
                then dict_set m1 (str ''dependencies'') (VList (parse_dependencies w bin_path)) else m1);
          m3 = (if sdk a \<and> isfile w bin_path
                then dict_set m2 (str ''sdk_version'') (VStr (get_sdk_version w bin_path)) else m2);
          m4 = (if codesign a
                then dict_set m3 (str ''codesign_info'') (VList (get_codesign_info w app_path)) else m3)
      in Inr (Some m4, []))"
  unfolding process_app_def Let_def
  by (simp only: assms simp_thms if_True if_False pyval.case)

lemma process_app_not_bundle:
  assumes "\<not> (isdir w (rstrip_char 47 app_path0) \<and> endswith (rstrip_char 47 app_path0) (str ''.app''))"
  shows "process_app w a colors app_path0 = Inr (None, [])"
  using assms unfolding process_app_def Let_def
  by (simp only: simp_thms if_True if_False)

lemma process_app_no_descriptor:
  assumes "isdir w (rstrip_char 47 app_path0)" 
    and "endswith (rstrip_char 47 app_path0) (str ''.app'')"
    and "\<not> isfile w (path_join (rstrip_char 47 app_path0) [str ''Contents'', str ''Info.plist''])"
  shows "process_app w a colors app_path0 =
     Inr (None, [colors (str ''error'') @ str ''Warning: '' @
                 path_join (rstrip_char 47 app_path0) [str ''Contents'', str ''Info.plist''] @
                 str '' not found. Skipping '' @ rstrip_char 47 app_path0 @ str ''.'' @
                 colors (str ''reset'') @ [10]])"
  unfolding process_app_def Let_def
  by (simp only: assms simp_thms if_True if_False)

lemma process_app_raises:
  assumes "isdir w (rstrip_char 47 app_path0)" 
    and "endswith (rstrip_char 47 app_path0) (str ''.app'')"
    and "isfile w (path_join (rstrip_char 47 app_path0) [str ''Contents'', str ''Info.plist''])"
    and "(\<forall>info. parse_plist w (path_join (rstrip_char 47 app_path0) [str ''Contents'', str ''Info.plist'']) \<noteq> VDict info) \<or>
         (\<exists>info. parse_plist w (path_join (rstrip_char 47 app_path0) [str ''Contents'', str ''Info.plist'']) = VDict info \<and>
            (\<forall>exe. dict_get_default info (str ''CFBundleExecutable'') (VStr []) \<noteq> VStr exe))"
  shows "\<exists>e. process_app w a colors app_path0 = Inl e"
proof -
  let ?pv = "parse_plist w (path_join (rstrip_char 47 app_path0) [str ''Contents'', str ''Info.plist''])"
  show ?thesis
  proof (cases ?pv)
    case (VDict info)
    then have ne: "\<forall>exe. dict_get_default info (str ''CFBundleExecutable'') (VStr []) \<noteq> VStr exe"
      using assms(4) by auto
    show ?thesis
      unfolding process_app_def Let_def
      apply (simp only: assms(1-3) VDict simp_thms if_True if_False pyval.case)
      using ne by (cases "dict_get_default info (str ''CFBundleExecutable'') (VStr [])") simp_all
  qed (simp_all only: process_app_def Let_def assms(1-3) simp_thms if_True if_False pyval.case, simp_all)
qed

lemma process_app_SomeE:
  assumes "process_app w a colors app_path0 = Inr (Some meta, written)"
  obtains info exe where
    "isdir w (rstrip_char 47 app_path0)"
    "endswith (rstrip_char 47 app_path0) (str ''.app'')"
    "isfile w (path_join (rstrip_char 47 app_path0) [str ''Contents'', str ''Info.plist''])"
    "parse_plist w (path_join (rstrip_char 47 app_path0) [str ''Contents'', str ''Info.plist'']) = VDict info"
    "dict_get_default info (str ''CFBundleExecutable'') (VStr []) = VStr exe"
proof -
  let ?app = "rstrip_char 47 app_path0"
  let ?plist = "path_join ?app [str ''Contents'', str ''Info.plist'']"
  have b: "isdir w ?app \<and> endswith ?app (str ''.app'')"
    using assms process_app_not_bundle[of w app_path0 a colors] by fastforce
  have f: "isfile w ?plist"
    using assms b process_app_no_descriptor[of w app_path0 a colors] by fastforce
  have "\<not> (\<exists>e. process_app w a colors app_path0 = Inl e)"
    using assms by simp
  then have "\<exists>info exe. parse_plist w ?plist = VDict info \<and>
      dict_get_default info (str ''CFBundleExecutable'') (VStr []) = VStr exe"
    using process_app_raises[of w app_path0 a colors] b f by blast
  then show ?thesis using that b f by blast
qed

lemma str_eq_iff [simp]: "str a = str b \<longleftrightarrow> a = b"
  by (simp add: str_def inj_map_eq_map inj_def)

lemma str_Nil_iff [simp]: "str a = [] \<longleftrightarrow> a = []" "[] = str a \<longleftrightarrow> a = []"
  by (auto simp add: str_def)

lemma dict_get_if_set:
  "k' \<noteq> k \<Longrightarrow> dict_get (if c then dict_set d k v else d) k' = dict_get d k'"
  by (simp add: dict_get_set)

lemma dict_get_Cons:
  "dict_get ((k, v) # d) k' = (if k' = k then v else dict_get d k')"
  by (simp add: dict_get_def)


lemma parse_plist_ascii_world [simp]: "parse_plist (ascii_world out info) p = info"
  by (simp add: parse_plist_def try_except_def raised_def ascii_world_def)

lemma isfile_ascii_world [simp]: "isfile (ascii_world out info) p" "isdir (ascii_world out info) p"
  by (simp_all add: ascii_world_def)

lemma dict_set_new: "k \<notin> set (map fst d) \<Longrightarrow> dict_set d k v = d @ [(k, v)]"
  unfolding dict_set_def by (induction d) auto

lemma build_meta_explicit:
  assumes "map fst m0 = [str ''app'', str ''version'', str ''minimum_macos'', str ''architecture'']"
  shows "(let m1 = (if c1 then dict_set m0 (str ''uuid'') v1 else m0);
              m2 = (if c2 then dict_set m1 (str ''dependencies'') v2 else m1);
              m3 = (if c3 then dict_set m2 (str ''sdk_version'') v3 else m2);
              m4 = (if c4 then dict_set m3 (str ''codesign_info'') v4 else m3)
          in m4) =
         m0 @ (if c1 then [(str ''uuid'', v1)] else []) @
              (if c2 then [(str ''dependencies'', v2)] else []) @
              (if c3 then [(str ''sdk_version'', v3)] else []) @
              (if c4 then [(str ''codesign_info'', v4)] else [])"
  by (cases c1; cases c2; cases c3; cases c4) (simp_all add: dict_set_new Let_def assms)

lemma process_app_explicit:
  assumes "isdir w (rstrip_char 47 app_path0)" 
    and "endswith (rstrip_char 47 app_path0) (str ''.app'')"
    and "isfile w (path_join (rstrip_char 47 app_path0) [str ''Contents'', str ''Info.plist''])"
    and "parse_plist w (path_join (rstrip_char 47 app_path0) [str ''Contents'', str ''Info.plist'']) = VDict info"
    and "dict_get_default info (str ''CFBundleExecutable'') (VStr []) = VStr exe"
  shows "process_app w a colors app_path0 =
     (let app_path = rstrip_char 47 app_path0;
          bin_path = path_join app_path [str ''Contents'', str ''MacOS'', exe]
      in Inr (Some (
           [(str ''app'', VStr app_path),
            (str ''version'', py_or (dict_get info (str ''CFBundleShortVersionString''))
                (dict_get_default info (str ''CFBundleVersion'') (VStr (str ''N/A'')))),
            (str ''minimum_macos'', dict_get_default info (str ''LSMinimumSystemVersion'') (VStr (str ''N/A''))),
            (str ''architecture'', VStr (if isfile w bin_path then get_architecture w bin_path else str ''N/A''))] @
           (if uuid a \<and> isfile w bin_path then [(str ''uuid'', VStr (get_uuid w bin_path))] else []) @
           (if deps a \<and> isfile w bin_path then [(str ''dependencies'', VList (parse_dependencies w bin_path))] else []) @
           (if sdk a \<and> isfile w bin_path then [(str ''sdk_version'', VStr (get_sdk_version w bin_path))] else []) @
           (if codesign a then [(str ''codesign_info'', VList (get_codesign_info w app_path))] else [])), []))"
  unfolding process_app_record[OF assms] Let_def
  by (subst build_meta_explicit[unfolded Let_def]) simp_all


lemmas world_eval = process_app_def Let_def rstrip_char_def endswith_def startswith_def
  suffix_def prefix_def get_architecture_def dict_get_def dict_get_default_def py_or_def
  dict_set_def strip_def py_isspace_def


section \<open>Version and minimum OS\<close>

text \<open>
  Claim C8, as the program has it. In every record that \<open>process_app\<close> returns, with
  \<open>info\<close> the decoded descriptor: \<open>version\<close> is the entry
  \<open>CFBundleShortVersionString\<close> when that entry is present and true as a Python value
  (for a string: not empty); otherwise it is the entry \<open>CFBundleVersion\<close> when
  present, and \<open>N/A\<close> when absent. \<open>minimum_macos\<close> is the entry
  \<open>LSMinimumSystemVersion\<close>, and \<open>N/A\<close> when absent.
\<close>

theorem version_and_minimum_os:
  assumes "process_app w a colors app_path0 = Inr (Some meta, written)"
  shows "\<exists>info.
     parse_plist w (path_join (rstrip_char 47 app_path0) [str ''Contents'', str ''Info.plist'']) = VDict info \<and>
     dict_get meta (str ''version'') =
       (let build = (case map_of info (str ''CFBundleVersion'') of
                       Some b \<Rightarrow> b | None \<Rightarrow> VStr (str ''N/A''))
        in case map_of info (str ''CFBundleShortVersionString'') of
             Some v \<Rightarrow> if truthy v then v else build
           | None \<Rightarrow> build) \<and>
     dict_get meta (str ''minimum_macos'') =
       (case map_of info (str ''LSMinimumSystemVersion'') of
          Some v \<Rightarrow> v | None \<Rightarrow> VStr (str ''N/A''))"
proof -
  from assms obtain info exe where c:
    "isdir w (rstrip_char 47 app_path0)"
    "endswith (rstrip_char 47 app_path0) (str ''.app'')"
    "isfile w (path_join (rstrip_char 47 app_path0) [str ''Contents'', str ''Info.plist''])"
    "parse_plist w (path_join (rstrip_char 47 app_path0) [str ''Contents'', str ''Info.plist'']) = VDict info"
    "dict_get_default info (str ''CFBundleExecutable'') (VStr []) = VStr exe"
    by (rule process_app_SomeE)
  note eq = process_app_record[OF c, of a colors]
  define ver where "ver = py_or (dict_get info (str ''CFBundleShortVersionString''))
                    (dict_get_default info (str ''CFBundleVersion'') (VStr (str ''N/A'')))"
  define mm where "mm = dict_get_default info (str ''LSMinimumSystemVersion'') (VStr (str ''N/A''))"
  have "dict_get meta (str ''version'') = ver \<and> dict_get meta (str ''minimum_macos'') = mm"
    using assms unfolding eq Let_def ver_def[symmetric] mm_def[symmetric]
    by (auto simp add: dict_get_if_set dict_get_Cons)
  moreover have "ver = (let build = (case map_of info (str ''CFBundleVersion'') of
                       Some b \<Rightarrow> b | None \<Rightarrow> VStr (str ''N/A''))
        in case map_of info (str ''CFBundleShortVersionString'') of
             Some v \<Rightarrow> if truthy v then v else build
           | None \<Rightarrow> build)"
    by (simp add: ver_def py_or_def dict_get_def dict_get_default_def Let_def split: option.splits)
  moreover have "mm = (case map_of info (str ''LSMinimumSystemVersion'') of
          Some v \<Rightarrow> v | None \<Rightarrow> VStr (str ''N/A''))"
    by (simp add: mm_def dict_get_default_def)
  ultimately show ?thesis using c(4) by simp
qed

text \<open>The theorem at a descriptor that declares version 2.1 and minimum OS 11.0, with a
  two-slice executable.\<close>

theorem version_and_minimum_os_witness:
  "process_app
     (ascii_world (str ''x86_64 arm64'' @ [10])
        (VDict [(str ''CFBundleShortVersionString'', VStr (str ''2.1'')),
                (str ''LSMinimumSystemVersion'', VStr (str ''11.0'')),
                (str ''CFBundleExecutable'', VStr (str ''A''))]))
     \<lparr>json = True, pretty = False, uuid = False, deps = False, sdk = False, codesign = False\<rparr>
     (\<lambda>k. []) (str ''/A.app/'') =
   Inr (Some [(str ''app'', VStr (str ''/A.app'')),
              (str ''version'', VStr (str ''2.1'')),
              (str ''minimum_macos'', VStr (str ''11.0'')),
              (str ''architecture'', VStr (str ''Universal''))], []) \<and>
   dict_get [(str ''app'', VStr (str ''/A.app'')),
             (str ''version'', VStr (str ''2.1'')),
             (str ''minimum_macos'', VStr (str ''11.0'')),
             (str ''architecture'', VStr (str ''Universal''))] (str ''version'') = VStr (str ''2.1'') \<and>
   dict_get [(str ''app'', VStr (str ''/A.app'')),
             (str ''version'', VStr (str ''2.1'')),
             (str ''minimum_macos'', VStr (str ''11.0'')),
             (str ''architecture'', VStr (str ''Universal''))] (str ''minimum_macos'') = VStr (str ''11.0'')"
proof -
  have e: "process_app
     (ascii_world (str ''x86_64 arm64'' @ [10])
        (VDict [(str ''CFBundleShortVersionString'', VStr (str ''2.1'')),
                (str ''LSMinimumSystemVersion'', VStr (str ''11.0'')),
                (str ''CFBundleExecutable'', VStr (str ''A''))]))
     \<lparr>json = True, pretty = False, uuid = False, deps = False, sdk = False, codesign = False\<rparr>
     (\<lambda>k. []) (str ''/A.app/'') =
   Inr (Some [(str ''app'', VStr (str ''/A.app'')),
              (str ''version'', VStr (str ''2.1'')),
              (str ''minimum_macos'', VStr (str ''11.0'')),
              (str ''architecture'', VStr (str ''Universal''))], [])"
    by (simp add: world_eval str_def)
  from version_and_minimum_os[OF e] show ?thesis
    using e by (simp add: Let_def dict_get_Cons)
qed


text \<open>
  The claim as the specification words it (the short version string, and the fallbacks
  only when it is absent) fails at a descriptor whose \<open>CFBundleShortVersionString\<close> is
  present and empty: \<open>x or y\<close> passes over the empty string and the record carries the
  build version.
\<close>

theorem version_empty_short_counterexample:
  "map_of [(str ''CFBundleShortVersionString'', VStr []),
           (str ''CFBundleVersion'', VStr (str ''7'')),
           (str ''CFBundleExecutable'', VStr (str ''A''))] (str ''CFBundleShortVersionString'')
     = Some (VStr []) \<and>
   process_app
     (ascii_world (str ''arm64'' @ [10])
        (VDict [(str ''CFBundleShortVersionString'', VStr []),
                (str ''CFBundleVersion'', VStr (str ''7'')),
                (str ''CFBundleExecutable'', VStr (str ''A''))]))
     \<lparr>json = True, pretty = False, uuid = False, deps = False, sdk = False, codesign = False\<rparr>
     (\<lambda>k. []) (str ''/A.app'') =
   Inr (Some [(str ''app'', VStr (str ''/A.app'')),
              (str ''version'', VStr (str ''7'')),
              (str ''minimum_macos'', VStr (str ''N/A'')),
              (str ''architecture'', VStr (str ''Apple Silicon''))], [])"
  by (simp add: world_eval str_def)


section \<open>Facet gating\<close>




section \<open>The result collection\<close>

lemma process_app_Some_written:
  assumes "process_app w a colors app_path0 = Inr (Some meta, written)"
  shows "written = []"
proof -
  from assms obtain info exe where c:
    "isdir w (rstrip_char 47 app_path0)"
    "endswith (rstrip_char 47 app_path0) (str ''.app'')"
    "isfile w (path_join (rstrip_char 47 app_path0) [str ''Contents'', str ''Info.plist''])"
    "parse_plist w (path_join (rstrip_char 47 app_path0) [str ''Contents'', str ''Info.plist'']) = VDict info"
    "dict_get_default info (str ''CFBundleExecutable'') (VStr []) = VStr exe"
    by (rule process_app_SomeE)
  show ?thesis
    using assms unfolding process_app_record[OF c] Let_def by simp
qed

lemma process_app_Some_bundle:
  assumes "process_app w a colors app_path0 = Inr (Some meta, written)"
  shows "isdir w (rstrip_char 47 app_path0) \<and>
         endswith (rstrip_char 47 app_path0) (str ''.app'') \<and>
         isfile w (path_join (rstrip_char 47 app_path0) [str ''Contents'', str ''Info.plist''])"
  using assms by (rule process_app_SomeE) blast

lemma gather_results:
  "gather w a colors apps results err = Inr (rs, es) \<Longrightarrow>
   \<exists>new. rs = results @ new \<and>
     (\<forall>m \<in> set new. \<exists>p \<in> set apps. process_app w a colors p = Inr (Some m, []))"
proof (induction apps arbitrary: results err)
  case Nil
  then show ?case by simp
next
  case (Cons app apps)
  show ?case
  proof (cases "process_app w a colors app")
    case (Inl e)
    with Cons.prems show ?thesis by simp
  next
    case (Inr r)
    obtain m written where r: "r = (m, written)" by (cases r)
    show ?thesis
    proof (cases m)
      case None
      with Cons.prems Inr r
      have "gather w a colors apps results (err @ written) = Inr (rs, es)" by simp
      from Cons.IH[OF this] show ?thesis by auto
    next
      case (Some meta)
      have wr: "written = []"
        using Inr r Some process_app_Some_written by blast
      show ?thesis
      proof (cases "truthy (VDict meta)")
        case True
        with Cons.prems Inr r Some
        have "gather w a colors apps (results @ [meta]) (err @ written) = Inr (rs, es)" by simp
        from Cons.IH[OF this] obtain new where
          n: "rs = (results @ [meta]) @ new"
             "\<forall>m \<in> set new. \<exists>p \<in> set apps. process_app w a colors p = Inr (Some m, [])"
          by blast
        have "rs = results @ (meta # new)" using n(1) by simp
        moreover have "\<forall>m \<in> set (meta # new). \<exists>p \<in> set (app # apps).
            process_app w a colors p = Inr (Some m, [])"
          using n(2) Inr r Some wr by auto
        ultimately show ?thesis by blast
      next
        case False
        with Cons.prems Inr r Some
        have "gather w a colors apps results (err @ written) = Inr (rs, es)" by simp
        from Cons.IH[OF this] show ?thesis by auto
      qed
    qed
  qed
qed


lemma parse_plist_unreadable:
  "plist_load w p = Inl e \<Longrightarrow> parse_plist w p = VDict []"
  by (simp add: parse_plist_def try_except_def raised_def)

lemma process_app_unreadable:
  assumes c: "isdir w (rstrip_char 47 app_path0)"
    "endswith (rstrip_char 47 app_path0) (str ''.app'')"
    "isfile w (path_join (rstrip_char 47 app_path0) [str ''Contents'', str ''Info.plist''])"
    and u: "plist_load w (path_join (rstrip_char 47 app_path0) [str ''Contents'', str ''Info.plist'']) = Inl e"
  shows "\<exists>m. process_app w a colors app_path0 = Inr (Some m, []) \<and>
             dict_get m (str ''version'') = VStr (str ''N/A'') \<and>
             dict_get m (str ''minimum_macos'') = VStr (str ''N/A'') \<and>
             gather w a colors (app_path0 # rest) results err =
               gather w a colors rest (results @ [m]) err"
proof -
  have pp: "parse_plist w (path_join (rstrip_char 47 app_path0) [str ''Contents'', str ''Info.plist'']) = VDict []"
    using u by (rule parse_plist_unreadable)
  have ex: "dict_get_default [] (str ''CFBundleExecutable'') (VStr []) = VStr []"
    by (simp add: dict_get_default_def)
  note eq = process_app_explicit[OF c pp ex, of a colors]
  obtain m where m: "process_app w a colors app_path0 = Inr (Some m, [])"
    unfolding eq Let_def by blast
  have v: "dict_get m (str ''version'') = VStr (str ''N/A'') \<and>
           dict_get m (str ''minimum_macos'') = VStr (str ''N/A'')"
    using m unfolding eq Let_def
    by (auto simp add: dict_get_Cons py_or_def dict_get_def dict_get_default_def)
  have ne: "m \<noteq> []"
    using m unfolding eq Let_def by auto
  have g: "gather w a colors (app_path0 # rest) results err =
               gather w a colors rest (results @ [m]) err"
    using ne by (simp add: m)
  from m v g show ?thesis by blast
qed


text \<open>
  Claim C6, as the program has it. A record comes out of \<open>process_app\<close> only for a
  path that, stripped of trailing separators, is a directory ending in \<open>.app\<close> with
  a file \<open>Contents/Info.plist\<close>; the test is \<open>os.path.isfile\<close>, not that the
  file can be read. For a bundle directory without that file, \<open>process_app\<close> returns
  \<open>None\<close> and writes exactly one diagnostic, which ends in a newline; the loop of
  \<open>main\<close> adds nothing to the collection and goes on with the remaining paths. Every
  record that the loop adds to the collection is the record of one of the paths, which is
  such a bundle. A bundle whose descriptor is there but cannot be read or decoded still
  gives a record, with \<open>N/A\<close> for the version and the minimum OS, and no
  diagnostic; the loop adds it and goes on.
\<close>

theorem result_collection_invariant:
  "(process_app w a colors app_path0 = Inr (Some meta, written) \<longrightarrow>
      isdir w (rstrip_char 47 app_path0) \<and>
      endswith (rstrip_char 47 app_path0) (str ''.app'') \<and>
      isfile w (path_join (rstrip_char 47 app_path0) [str ''Contents'', str ''Info.plist''])) \<and>
   (isdir w (rstrip_char 47 app_path0) \<and>
    endswith (rstrip_char 47 app_path0) (str ''.app'') \<and>
    \<not> isfile w (path_join (rstrip_char 47 app_path0) [str ''Contents'', str ''Info.plist'']) \<longrightarrow>
      (\<exists>line. process_app w a colors app_path0 = Inr (None, [line]) \<and>
              last line = 10 \<and>
              gather w a colors (app_path0 # rest) results err =
                gather w a colors rest results (err @ [line]))) \<and>
   (gather w a colors apps results err = Inr (results', err') \<longrightarrow>
      (\<exists>new. results' = results @ new \<and>
         (\<forall>m \<in> set new. \<exists>p \<in> set apps.
            process_app w a colors p = Inr (Some m, []) \<and>
            isdir w (rstrip_char 47 p) \<and>
            endswith (rstrip_char 47 p) (str ''.app'') \<and>
            isfile w (path_join (rstrip_char 47 p) [str ''Contents'', str ''Info.plist'']))) \<and>
   (isdir w (rstrip_char 47 app_path0) \<and>
    endswith (rstrip_char 47 app_path0) (str ''.app'') \<and>
    isfile w (path_join (rstrip_char 47 app_path0) [str ''Contents'', str ''Info.plist'']) \<and>
    plist_load w (path_join (rstrip_char 47 app_path0) [str ''Contents'', str ''Info.plist'']) = Inl e \<longrightarrow>
      (\<exists>m. process_app w a colors app_path0 = Inr (Some m, []) \<and>
           dict_get m (str ''version'') = VStr (str ''N/A'') \<and>
           dict_get m (str ''minimum_macos'') = VStr (str ''N/A'') \<and>
           gather w a colors (app_path0 # rest) results err =
             gather w a colors rest (results @ [m]) err)))"
proof (intro conjI impI)
  assume s: "process_app w a colors app_path0 = Inr (Some meta, written)"
  from process_app_Some_bundle[OF s] show "isdir w (rstrip_char 47 app_path0)" by blast
  from process_app_Some_bundle[OF s] show "endswith (rstrip_char 47 app_path0) (str ''.app'')" by blast
  from process_app_Some_bundle[OF s]
  show "isfile w (path_join (rstrip_char 47 app_path0) [str ''Contents'', str ''Info.plist''])"
    by blast
next
  assume c: "isdir w (rstrip_char 47 app_path0) \<and>
    endswith (rstrip_char 47 app_path0) (str ''.app'') \<and>
    \<not> isfile w (path_join (rstrip_char 47 app_path0) [str ''Contents'', str ''Info.plist''])"
  define line where "line = colors (str ''error'') @ str ''Warning: '' @
                 path_join (rstrip_char 47 app_path0) [str ''Contents'', str ''Info.plist''] @
                 str '' not found. Skipping '' @ rstrip_char 47 app_path0 @ str ''.'' @
                 colors (str ''reset'') @ [10]"
  have p: "process_app w a colors app_path0 = Inr (None, [line])"
    using c process_app_no_descriptor[of w app_path0 a colors] unfolding line_def by blast
  have l: "last line = 10" unfolding line_def by simp
  have g: "gather w a colors (app_path0 # rest) results err =
                gather w a colors rest results (err @ [line])"
    by (simp add: p)
  from p l g show "\<exists>line. process_app w a colors app_path0 = Inr (None, [line]) \<and>
              last line = 10 \<and>
              gather w a colors (app_path0 # rest) results err =
                gather w a colors rest results (err @ [line])"
    by blast
next
  assume g: "gather w a colors apps results err = Inr (results', err')"
  from gather_results[OF g] obtain new where
    n: "results' = results @ new"
       "\<forall>m \<in> set new. \<exists>p \<in> set apps. process_app w a colors p = Inr (Some m, [])"
    by blast
  have "\<forall>m \<in> set new. \<exists>p \<in> set apps.
            process_app w a colors p = Inr (Some m, []) \<and>
            isdir w (rstrip_char 47 p) \<and>
            endswith (rstrip_char 47 p) (str ''.app'') \<and>
            isfile w (path_join (rstrip_char 47 p) [str ''Contents'', str ''Info.plist''])"
  proof
    fix m assume "m \<in> set new"
    with n(2) obtain p where p: "p \<in> set apps" "process_app w a colors p = Inr (Some m, [])"
      by blast
    from process_app_Some_bundle[OF p(2)] p show "\<exists>p \<in> set apps.
            process_app w a colors p = Inr (Some m, []) \<and>
            isdir w (rstrip_char 47 p) \<and>
            endswith (rstrip_char 47 p) (str ''.app'') \<and>
            isfile w (path_join (rstrip_char 47 p) [str ''Contents'', str ''Info.plist''])"
      by blast
  qed
  with n(1) show "\<exists>new. results' = results @ new \<and>
         (\<forall>m \<in> set new. \<exists>p \<in> set apps.
            process_app w a colors p = Inr (Some m, []) \<and>
            isdir w (rstrip_char 47 p) \<and>
            endswith (rstrip_char 47 p) (str ''.app'') \<and>
            isfile w (path_join (rstrip_char 47 p) [str ''Contents'', str ''Info.plist'']))"
    by blast
next
  assume u: "isdir w (rstrip_char 47 app_path0) \<and>
    endswith (rstrip_char 47 app_path0) (str ''.app'') \<and>
    isfile w (path_join (rstrip_char 47 app_path0) [str ''Contents'', str ''Info.plist'']) \<and>
    plist_load w (path_join (rstrip_char 47 app_path0) [str ''Contents'', str ''Info.plist'']) = Inl e"
  then show "\<exists>m. process_app w a colors app_path0 = Inr (Some m, []) \<and>
           dict_get m (str ''version'') = VStr (str ''N/A'') \<and>
           dict_get m (str ''minimum_macos'') = VStr (str ''N/A'') \<and>
           gather w a colors (app_path0 # rest) results err =
             gather w a colors rest (results @ [m]) err"
    using process_app_unreadable by blast
qed

text \<open>The theorem at two bundles, the first without a descriptor: one diagnostic, and the
  record of the second bundle.\<close>

theorem result_collection_invariant_witness:
  "gather
     \<lparr>check_output = (\<lambda>cmd. Inl OSError), isdir = (\<lambda>p. True),
      isfile = (\<lambda>p. p = str ''/B.app/Contents/Info.plist''),
      plist_load = (\<lambda>p. Inr (VDict [(str ''CFBundleShortVersionString'', VStr (str ''2.1''))]))\<rparr>
     \<lparr>json = True, pretty = False, uuid = False, deps = False, sdk = False, codesign = False\<rparr>
     (\<lambda>k. []) [str ''/A.app'', str ''/B.app''] [] [] =
   Inr ([[(str ''app'', VStr (str ''/B.app'')),
          (str ''version'', VStr (str ''2.1'')),
          (str ''minimum_macos'', VStr (str ''N/A'')),
          (str ''architecture'', VStr (str ''N/A''))]],
        [str ''Warning: /A.app/Contents/Info.plist not found. Skipping /A.app.'' @ [10]])"
  using result_collection_invariant
    [of "\<lparr>check_output = (\<lambda>cmd. Inl OSError), isdir = (\<lambda>p. True),
      isfile = (\<lambda>p. p = str ''/B.app/Contents/Info.plist''),
      plist_load = (\<lambda>p. Inr (VDict [(str ''CFBundleShortVersionString'', VStr (str ''2.1''))]))\<rparr>"
     "\<lparr>json = True, pretty = False, uuid = False, deps = False, sdk = False, codesign = False\<rparr>"
     "\<lambda>k. []" "str ''/A.app''" _ _ "[str ''/B.app'']" "[]" "[]"]
  by (simp add: world_eval parse_plist_def try_except_def raised_def str_def)

text \<open>
  The claim as the specification words it (a record only for a bundle with a readable
  descriptor) fails at a bundle whose \<open>Contents/Info.plist\<close> is a file that cannot
  be opened: \<open>parse_plist\<close> returns the empty mapping, and the record is added to
  the collection with no diagnostic.
\<close>

theorem unreadable_descriptor_counterexample:
  "plist_load
     \<lparr>check_output = (\<lambda>cmd. Inl OSError), isdir = (\<lambda>p. True),
      isfile = (\<lambda>p. p = str ''/A.app/Contents/Info.plist''),
      plist_load = (\<lambda>p. Inl OSError)\<rparr> (str ''/A.app/Contents/Info.plist'') = Inl OSError \<and>
   gather
     \<lparr>check_output = (\<lambda>cmd. Inl OSError), isdir = (\<lambda>p. True),
      isfile = (\<lambda>p. p = str ''/A.app/Contents/Info.plist''),
      plist_load = (\<lambda>p. Inl OSError)\<rparr>
     \<lparr>json = True, pretty = False, uuid = False, deps = False, sdk = False, codesign = False\<rparr>
     (\<lambda>k. []) [str ''/A.app''] [] [] =
   Inr ([[(str ''app'', VStr (str ''/A.app'')),
          (str ''version'', VStr (str ''N/A'')),
          (str ''minimum_macos'', VStr (str ''N/A'')),
          (str ''architecture'', VStr (str ''N/A''))]], [])"
  by (simp add: world_eval parse_plist_def try_except_def raised_def str_def)

section \<open>Facts about the matcher\<close>

text \<open>The results of \<open>rx_run\<close>, as sets: what each construct can consume and
  capture.\<close>

lemma takeWhile_prefix_all:
  "length x \<le> length (takeWhile P (x @ r)) \<longleftrightarrow> (\<forall>c\<in>set x. P c)"
  by (induction x) auto

lemma run_prefixes:
  "(\<exists>n. lo \<le> n \<and> n \<le> length (takeWhile P t) \<and> st' = advance n st) \<longleftrightarrow>
   (\<exists>x r. t = x @ r \<and> lo \<le> length x \<and> (\<forall>c\<in>set x. P c) \<and> st' = advance (length x) st)"
proof
  assume "\<exists>n. lo \<le> n \<and> n \<le> length (takeWhile P t) \<and> st' = advance n st"
  then obtain n where n: "lo \<le> n" "n \<le> length (takeWhile P t)" "st' = advance n st" by blast
  have le: "n \<le> length t" using n(2) length_takeWhile_le[of P t] by linarith
  have "t = take n t @ drop n t" by simp
  moreover have "length (take n t) = n" using le by simp
  moreover have "\<forall>c\<in>set (take n t). P c"
  proof -
    have "length (take n t) \<le> length (takeWhile P (take n t @ drop n t))"
      using n(2) le by simp
    then show ?thesis by (simp only: takeWhile_prefix_all)
  qed
  ultimately show "\<exists>x r. t = x @ r \<and> lo \<le> length x \<and> (\<forall>c\<in>set x. P c) \<and> st' = advance (length x) st"
    using n(1,3) by metis
next
  assume "\<exists>x r. t = x @ r \<and> lo \<le> length x \<and> (\<forall>c\<in>set x. P c) \<and> st' = advance (length x) st"
  then obtain x r where x: "t = x @ r" "lo \<le> length x" "\<forall>c\<in>set x. P c" "st' = advance (length x) st"
    by blast
  have "length x \<le> length (takeWhile P t)"
    unfolding x(1) using x(3) by (simp only: takeWhile_prefix_all)
  then show "\<exists>n. lo \<le> n \<and> n \<le> length (takeWhile P t) \<and> st' = advance n st"
    using x(2,4) by blast
qed

lemma mem_map_upt:
  "y \<in> set (map f (rev [lo ..< Suc k])) \<longleftrightarrow> (\<exists>n. lo \<le> n \<and> n \<le> k \<and> y = f n)"
  "y \<in> set (map f [lo ..< Suc k]) \<longleftrightarrow> (\<exists>n. lo \<le> n \<and> n \<le> k \<and> y = f n)"
  unfolding set_map set_rev set_upt image_iff Bex_def atLeastLessThan_iff less_Suc_eq_le
  by blast+

lemma advance_split:
  "todo st = x @ r \<Longrightarrow>
   advance (length x) st = \<lparr>seen = seen st @ x, todo = r, groups = groups st\<rparr>"
  by (simp add: advance_def)

lemma mem_Lit:
  "st' \<in> set (rx_run (Lit l) st) \<longleftrightarrow>
   (\<exists>r. todo st = l @ r \<and> st' = \<lparr>seen = seen st @ l, todo = r, groups = groups st\<rparr>)"
  by (auto simp: prefix_def advance_split)

lemma mem_Star:
  "st' \<in> set (rx_run (Star P) st) \<longleftrightarrow>
   (\<exists>x r. todo st = x @ r \<and> (\<forall>c\<in>set x. P c) \<and>
          st' = \<lparr>seen = seen st @ x, todo = r, groups = groups st\<rparr>)"
proof -
  have "st' \<in> set (rx_run (Star P) st) \<longleftrightarrow>
      (\<exists>n. 0 \<le> n \<and> n \<le> length (takeWhile P (todo st)) \<and> st' = advance n st)"
    by (simp only: rx_run.simps mem_map_upt)
  also have "\<dots> \<longleftrightarrow> (\<exists>x r. todo st = x @ r \<and> 0 \<le> length x \<and> (\<forall>c\<in>set x. P c) \<and> st' = advance (length x) st)"
    by (rule run_prefixes)
  also have "\<dots> \<longleftrightarrow> (\<exists>x r. todo st = x @ r \<and> (\<forall>c\<in>set x. P c) \<and>
          st' = \<lparr>seen = seen st @ x, todo = r, groups = groups st\<rparr>)"
    by (auto simp: advance_split)
  finally show ?thesis .
qed

lemma mem_StarLazy:
  "st' \<in> set (rx_run (StarLazy P) st) \<longleftrightarrow>
   (\<exists>x r. todo st = x @ r \<and> (\<forall>c\<in>set x. P c) \<and>
          st' = \<lparr>seen = seen st @ x, todo = r, groups = groups st\<rparr>)"
proof -
  have "st' \<in> set (rx_run (StarLazy P) st) \<longleftrightarrow>
      (\<exists>n. 0 \<le> n \<and> n \<le> length (takeWhile P (todo st)) \<and> st' = advance n st)"
    by (simp only: rx_run.simps mem_map_upt)
  also have "\<dots> \<longleftrightarrow> (\<exists>x r. todo st = x @ r \<and> 0 \<le> length x \<and> (\<forall>c\<in>set x. P c) \<and> st' = advance (length x) st)"
    by (rule run_prefixes)
  also have "\<dots> \<longleftrightarrow> (\<exists>x r. todo st = x @ r \<and> (\<forall>c\<in>set x. P c) \<and>
          st' = \<lparr>seen = seen st @ x, todo = r, groups = groups st\<rparr>)"
    by (auto simp: advance_split)
  finally show ?thesis .
qed

lemma mem_Plus:
  "st' \<in> set (rx_run (Plus P) st) \<longleftrightarrow>
   (\<exists>x r. todo st = x @ r \<and> x \<noteq> [] \<and> (\<forall>c\<in>set x. P c) \<and>
          st' = \<lparr>seen = seen st @ x, todo = r, groups = groups st\<rparr>)"
proof -
  have "st' \<in> set (rx_run (Plus P) st) \<longleftrightarrow>
      (\<exists>n. 1 \<le> n \<and> n \<le> length (takeWhile P (todo st)) \<and> st' = advance n st)"
    by (simp only: rx_run.simps mem_map_upt)
  also have "\<dots> \<longleftrightarrow> (\<exists>x r. todo st = x @ r \<and> 1 \<le> length x \<and> (\<forall>c\<in>set x. P c) \<and> st' = advance (length x) st)"
    by (rule run_prefixes)
  also have "\<dots> \<longleftrightarrow> (\<exists>x r. todo st = x @ r \<and> x \<noteq> [] \<and> (\<forall>c\<in>set x. P c) \<and>
          st' = \<lparr>seen = seen st @ x, todo = r, groups = groups st\<rparr>)"
    by (auto simp: advance_split Suc_le_eq)
  finally show ?thesis .
qed

lemma mem_Opt:
  "st' \<in> set (rx_run (Opt r) st) \<longleftrightarrow> st' \<in> set (rx_run r st) \<or> st' = st"
  by auto

lemma mem_Group:
  "st' \<in> set (rx_run (Group n r) st) \<longleftrightarrow> (\<exists>st1 \<in> set (rx_run r st). st' = capture n st st1)"
  by auto

lemma mem_Seq:
  "st' \<in> set (rx_run (Seq a b) st) \<longleftrightarrow> (\<exists>st1 \<in> set (rx_run a st). st' \<in> set (rx_run b st1))"
  by auto

lemma mem_Bol: "st' \<in> set (rx_run Bol st) \<longleftrightarrow> seen st = [] \<and> st' = st"
  by auto

lemma mem_BolM:
  "st' \<in> set (rx_run BolM st) \<longleftrightarrow> (seen st = [] \<or> last (seen st) = 10) \<and> st' = st"
  by auto

lemma mem_Eol:
  "st' \<in> set (rx_run Eol st) \<longleftrightarrow> (todo st = [] \<or> todo st = [10]) \<and> st' = st"
  by auto

declare rx_run.simps [simp del]

lemma first_match_Some: "first_match ms = Some m \<Longrightarrow> m \<in> set ms"
  by (cases ms) (auto simp: first_match_def)

lemma first_match_None: "first_match ms = None \<longleftrightarrow> set ms = {}"
  by (cases ms) (auto simp: first_match_def)

lemma re_match_Some:
  "re_match r s = Some m \<Longrightarrow> m \<in> set (rx_run r \<lparr>seen = [], todo = s, groups = []\<rparr>)"
  by (simp add: re_match_def first_match_Some)

lemma re_match_None:
  "re_match r s = None \<longleftrightarrow> set (rx_run r \<lparr>seen = [], todo = s, groups = []\<rparr>) = {}"
  by (simp add: re_match_def first_match_None)

lemma re_search_from_Some:
  "re_search_from r pre s = Some m \<Longrightarrow>
   \<exists>u v. s = u @ v \<and> m \<in> set (rx_run r \<lparr>seen = pre @ u, todo = v, groups = []\<rparr>)"
proof (induction s arbitrary: pre)
  case Nil
  then show ?case by (auto dest: first_match_Some)
next
  case (Cons c cs)
  show ?case
  proof (cases "rx_run r \<lparr>seen = pre, todo = c # cs, groups = []\<rparr>")
    case Nil
    with Cons.prems have "re_search_from r (pre @ [c]) cs = Some m" by simp
    from Cons.IH[OF this] obtain u v where
      "cs = u @ v" "m \<in> set (rx_run r \<lparr>seen = (pre @ [c]) @ u, todo = v, groups = []\<rparr>)"
      by blast
    then have "c # cs = (c # u) @ v \<and> m \<in> set (rx_run r \<lparr>seen = pre @ (c # u), todo = v, groups = []\<rparr>)"
      by simp
    then show ?thesis by blast
  next
    case (Cons m' ms)
    with Cons.prems have "m = m'" by simp
    then have "c # cs = [] @ (c # cs) \<and> m \<in> set (rx_run r \<lparr>seen = pre @ [], todo = c # cs, groups = []\<rparr>)"
      using Cons by simp
    then show ?thesis by blast
  qed
qed

lemmas rx_eval = rx_run.simps re_search_def re_match_def first_match_def advance_def capture_def
  group_def group1_or_empty_def prefix_def dot_def dot_all_def digit_dot_def not_comma_def hex_dash_def


section \<open>SDK version extractor: the order of the matchers\<close>

lemma run_Group_Plus:
  "m \<in> set (rx_run (Group n (Plus c)) st) \<Longrightarrow>
   \<exists>v. map_of (groups m) n = Some v \<and> v \<noteq> [] \<and> (\<forall>x\<in>set v. c x)"
  by (auto simp: mem_Group mem_Plus capture_def)

lemma sdk_regex_group:
  assumes "r \<in> {sdk_line_regex, build_version_regex, min_version_regex, any_sdk_regex}"
    and "m \<in> set (rx_run r st)"
  shows "\<exists>v. map_of (groups m) 1 = Some v \<and> v \<noteq> [] \<and> (\<forall>x\<in>set v. digit_dot x)"
proof -
  from assms have "\<exists>st1. m \<in> set (rx_run (Group 1 (Plus digit_dot)) st1)"
    unfolding sdk_line_regex_def build_version_regex_def min_version_regex_def any_sdk_regex_def
    by (auto simp only: cat.simps mem_Seq insert_iff empty_iff)
  then show ?thesis by (blast dest: run_Group_Plus)
qed

lemma sdk_search_value:
  assumes "r \<in> {sdk_line_regex, build_version_regex, min_version_regex, any_sdk_regex}"
  shows "re_search r s = None \<and> group1_or_empty (re_search r s) = [] \<or>
         re_search r s \<noteq> None \<and> group1_or_empty (re_search r s) \<noteq> [] \<and>
           (\<forall>x \<in> set (group1_or_empty (re_search r s)). digit_dot x)"
proof (cases "re_search r s")
  case None
  then show ?thesis by (simp add: group1_or_empty_def)
next
  case (Some m)
  then obtain u v where "m \<in> set (rx_run r \<lparr>seen = [] @ u, todo = v, groups = []\<rparr>)"
    unfolding re_search_def by (blast dest: re_search_from_Some)
  from sdk_regex_group[OF assms this] obtain x where
    "map_of (groups m) 1 = Some x" "x \<noteq> []" "\<forall>c\<in>set x. digit_dot c" by blast
  then show ?thesis using Some by (simp add: group1_or_empty_def)
qed


text \<open>
  Claim C3. \<open>get_sdk_version\<close> returns the value of the first of the four matchers
  that matches the load-command dump, tried in the order standalone \<open>sdk\<close> line,
  build-version block, minimum-OS block, any \<open>sdk\<close>; so when the standalone line
  matches, its value is returned whatever the build-version block holds. Every matcher
  that matches gives a non-empty text of digits and dots, so the result is the empty
  string exactly when no matcher matches.
\<close>

theorem get_sdk_version_order:
  "let t = run_command w [str ''otool'', str ''-l'', binary_path];
       m1 = re_search sdk_line_regex t;
       m2 = re_search build_version_regex t;
       m3 = re_search min_version_regex t;
       m4 = re_search any_sdk_regex t
   in get_sdk_version w binary_path =
        (if m1 \<noteq> None then group1_or_empty m1
         else if m2 \<noteq> None then group1_or_empty m2
         else if m3 \<noteq> None then group1_or_empty m3
         else if m4 \<noteq> None then group1_or_empty m4
         else []) \<and>
      (m1 \<noteq> None \<longrightarrow> get_sdk_version w binary_path = group1_or_empty m1) \<and>
      (get_sdk_version w binary_path = [] \<longleftrightarrow>
         m1 = None \<and> m2 = None \<and> m3 = None \<and> m4 = None) \<and>
      (\<forall>c \<in> set (get_sdk_version w binary_path). digit_dot c)"
proof -
  define t where "t = run_command w [str ''otool'', str ''-l'', binary_path]"
  define m1 m2 m3 m4 where "m1 = re_search sdk_line_regex t"
    and "m2 = re_search build_version_regex t"
    and "m3 = re_search min_version_regex t"
    and "m4 = re_search any_sdk_regex t"
  have eq: "get_sdk_version w binary_path =
        (if m1 \<noteq> None then group1_or_empty m1
         else if m2 \<noteq> None then group1_or_empty m2
         else if m3 \<noteq> None then group1_or_empty m3
         else if m4 \<noteq> None then group1_or_empty m4
         else [])"
    unfolding get_sdk_version_def Let_def t_def m1_def m2_def m3_def m4_def
    by (simp add: group1_or_empty_def)
  have v1: "m1 = None \<and> group1_or_empty m1 = [] \<or>
         m1 \<noteq> None \<and> group1_or_empty m1 \<noteq> [] \<and> (\<forall>x \<in> set (group1_or_empty m1). digit_dot x)"
    unfolding m1_def by (rule sdk_search_value) simp
  have v2: "m2 = None \<and> group1_or_empty m2 = [] \<or>
         m2 \<noteq> None \<and> group1_or_empty m2 \<noteq> [] \<and> (\<forall>x \<in> set (group1_or_empty m2). digit_dot x)"
    unfolding m2_def by (rule sdk_search_value) simp
  have v3: "m3 = None \<and> group1_or_empty m3 = [] \<or>
         m3 \<noteq> None \<and> group1_or_empty m3 \<noteq> [] \<and> (\<forall>x \<in> set (group1_or_empty m3). digit_dot x)"
    unfolding m3_def by (rule sdk_search_value) simp
  have v4: "m4 = None \<and> group1_or_empty m4 = [] \<or>
         m4 \<noteq> None \<and> group1_or_empty m4 \<noteq> [] \<and> (\<forall>x \<in> set (group1_or_empty m4). digit_dot x)"
    unfolding m4_def by (rule sdk_search_value) simp
  have a: "m1 \<noteq> None \<longrightarrow> get_sdk_version w binary_path = group1_or_empty m1"
    by (simp add: eq)
  have b: "get_sdk_version w binary_path = [] \<longleftrightarrow>
         m1 = None \<and> m2 = None \<and> m3 = None \<and> m4 = None"
    unfolding eq using v1 v2 v3 v4 by (auto split: if_splits)
  have c: "\<forall>c \<in> set (get_sdk_version w binary_path). digit_dot c"
    unfolding eq using v1 v2 v3 v4 by (auto split: if_splits)
  show ?thesis
    unfolding Let_def t_def[symmetric] m1_def[symmetric] m2_def[symmetric]
      m3_def[symmetric] m4_def[symmetric]
    using eq a b c by blast
qed


text \<open>The theorem at a dump whose standalone \<open>sdk\<close> line says 10.14 and whose
  build-version block says 12.3, and at a dump with no \<open>sdk\<close>.\<close>

theorem get_sdk_version_order_witness:
  "get_sdk_version
     (ascii_world (str ''cmd LC_VERSION_MIN_MACOSX'' @ [10] @ str ''  sdk 10.14'' @ [10] @
                   str ''cmd LC_BUILD_VERSION'' @ [10] @ str ''  sdk 12.3'' @ [10]) VNone)
     (str ''/A.app/Contents/MacOS/A'') = str ''10.14'' \<and>
   group1_or_empty (re_search build_version_regex
     (str ''cmd LC_VERSION_MIN_MACOSX'' @ [10] @ str ''  sdk 10.14'' @ [10] @
      str ''cmd LC_BUILD_VERSION'' @ [10] @ str ''  sdk 12.3'' @ [10])) = str ''12.3'' \<and>
   get_sdk_version (ascii_world (str ''cmd LC_UUID'' @ [10]) VNone) (str ''/A.app/Contents/MacOS/A'') = []"
  using get_sdk_version_order[of "ascii_world (str ''cmd LC_VERSION_MIN_MACOSX'' @ [10] @ str ''  sdk 10.14'' @ [10] @
                   str ''cmd LC_BUILD_VERSION'' @ [10] @ str ''  sdk 12.3'' @ [10]) VNone" "str ''/A.app/Contents/MacOS/A''"]
        get_sdk_version_order[of "ascii_world (str ''cmd LC_UUID'' @ [10]) VNone" "str ''/A.app/Contents/MacOS/A''"]
  by (simp add: Let_def rx_eval sdk_line_regex_def build_version_regex_def min_version_regex_def
        any_sdk_regex_def str_def py_isspace_def)

end
